theory Spec2Isabelle
  imports Main "HOL-Library.Multiset"
begin

section \<open>Data model of testseat.py\<close>

text \<open>
  A Python \<open>str\<close> is a sequence of Unicode code points. Code points are modelled as
  natural numbers, so that the whitespace and line-break characters beyond ASCII that
  \<open>str.strip\<close>, \<open>str.split\<close> and \<open>str.splitlines\<close> recognise are
  representable. \<open>u\<close> embeds an ASCII literal.
\<close>

type_synonym pystr = "nat list"

definition u :: "string \<Rightarrow> pystr" where
  "u s = map of_char s"

text \<open>
  \<^verbatim>\<open>
  @dataclass(frozen=True)
  class Seat:
      row: int
      col: int
  \<close>
  Equality is by value, as for the frozen dataclass. Python integers are unbounded.
\<close>

record Seat =
  row :: int
  col :: int

datatype error = ValueError | IndexError

section \<open>The pseudo-random generator\<close>

text \<open>
  \<open>random.Random\<close> belongs to the Python standard library, not to the repository; it
  is taken as a parameter. \<open>seed_state\<close> is the generator state that
  \<open>random.Random(seed)\<close> reaches from an integer seed, and \<open>randbelow g n\<close> is
  \<open>Random._randbelow(n)\<close> in state \<open>g\<close>: the number drawn and the next state.
  The library promises \<open>0 \<le> _randbelow(n) < n\<close> for positive \<open>n\<close>; \<open>rng_ok\<close>
  states that contract.
\<close>

record 'g Random =
  seed_state :: "int \<Rightarrow> 'g"
  randbelow :: "'g \<Rightarrow> nat \<Rightarrow> nat \<times> 'g"

definition rng_ok :: "'g Random \<Rightarrow> bool" where
  "rng_ok R \<longleftrightarrow> (\<forall>g n. 0 < n \<longrightarrow> fst (randbelow R g n) < n)"

text \<open>
  \<open>random.Random(seed)\<close>: with \<open>seed=None\<close> the state comes from the operating
  system's entropy, which is the argument \<open>os\<close>; with an integer seed it is a function
  of the seed alone.
\<close>

definition Random_new :: "'g Random \<Rightarrow> 'g \<Rightarrow> int option \<Rightarrow> 'g" where
  "Random_new R os seed = (case seed of None \<Rightarrow> os | Some s \<Rightarrow> seed_state R s)"

text \<open>
  \<open>Random.shuffle\<close> of CPython:
  \<^verbatim>\<open>
  for i in reversed(range(1, len(x))):
      j = randbelow(i + 1)
      x[i], x[j] = x[j], x[i]
  \<close>
  \<open>shuffle_loop R n g x\<close> runs the iterations \<open>i = n, n - 1, ..., 1\<close>.
\<close>

definition swap :: "'a list \<Rightarrow> nat \<Rightarrow> nat \<Rightarrow> 'a list" where
  "swap x i j = x[i := x ! j, j := x ! i]"

fun shuffle_loop :: "'g Random \<Rightarrow> nat \<Rightarrow> 'g \<Rightarrow> 'a list \<Rightarrow> 'a list" where
  "shuffle_loop R 0 g x = x"
| "shuffle_loop R (Suc i) g x =
     (let (j, g') = randbelow R g (Suc i + 1)
      in shuffle_loop R i g' (swap x (Suc i) j))"

definition shuffle :: "'g Random \<Rightarrow> 'g \<Rightarrow> 'a list \<Rightarrow> 'a list" where
  "shuffle R g x = shuffle_loop R (length x - 1) g x"

section \<open>assign_seats\<close>

text \<open>
  \<^verbatim>\<open>
  blocked_set = {Seat(r, c) for r, c in (blocked or [])}
  all_seats = [Seat(r, c) for r in range(1, rows + 1) for c in range(1, cols + 1)]
  available_seats = [s for s in all_seats if s not in blocked_set]
  \<close>
\<close>

definition blocked_set :: "(int \<times> int) list option \<Rightarrow> Seat set" where
  "blocked_set blocked =
     (\<lambda>(r, c). \<lparr>row = r, col = c\<rparr>) ` set (case blocked of None \<Rightarrow> [] | Some bs \<Rightarrow> bs)"

definition all_seats :: "int \<Rightarrow> int \<Rightarrow> Seat list" where
  "all_seats rows cols =
     concat (map (\<lambda>r. map (\<lambda>c. \<lparr>row = r, col = c\<rparr>) [1..cols]) [1..rows])"

definition available_seats :: "int \<Rightarrow> int \<Rightarrow> (int \<times> int) list option \<Rightarrow> Seat list" where
  "available_seats rows cols blocked =
     filter (\<lambda>s. s \<notin> blocked_set blocked) (all_seats rows cols)"

text \<open>
  \<^verbatim>\<open>
  rng = random.Random(seed)
  shuffled = list(students)
  rng.shuffle(shuffled)
  \<close>
\<close>

definition shuffled :: "'g Random \<Rightarrow> 'g \<Rightarrow> int option \<Rightarrow> pystr list \<Rightarrow> pystr list" where
  "shuffled R os seed students = shuffle R (Random_new R os seed) students"

definition assign_seats ::
  "'g Random \<Rightarrow> 'g \<Rightarrow> pystr list \<Rightarrow> int \<Rightarrow> int \<Rightarrow> (int \<times> int) list option \<Rightarrow> int option
     \<Rightarrow> error + (Seat \<times> pystr) list" where
  "assign_seats R os students rows cols blocked seed =
     (if length students > length (available_seats rows cols blocked)
      then Inl ValueError
      else Inr (zip (available_seats rows cols blocked) (shuffled R os seed students)))"

text \<open>
  A small linear congruential generator, used to run the model on concrete inputs.
\<close>

definition lcg :: "nat Random" where
  "lcg = \<lparr>seed_state = (\<lambda>s. nat \<bar>s\<bar>),
          randbelow = (\<lambda>g n. (g mod n, (g * 5 + 3) mod 16))\<rparr>"

section \<open>assign_seats on an explicit store\<close>

text \<open>
  The caller's \<open>students\<close> list is a mutable object. To speak about what the call does
  to it, list objects live in a store and are named by their address (the index in the
  store). \<open>list(students)\<close> allocates a new object holding a copy, and
  \<open>rng.shuffle(shuffled)\<close> swaps elements of that object in place.
\<close>

type_synonym addr = nat
type_synonym store = "pystr list list"

definition new_list :: "store \<Rightarrow> pystr list \<Rightarrow> addr \<times> store" where
  "new_list h xs = (length h, h @ [xs])"

fun shuffle_in_place :: "'g Random \<Rightarrow> nat \<Rightarrow> 'g \<Rightarrow> store \<Rightarrow> addr \<Rightarrow> store" where
  "shuffle_in_place R 0 g h a = h"
| "shuffle_in_place R (Suc i) g h a =
     (let (j, g') = randbelow R g (Suc i + 1)
      in shuffle_in_place R i g' (h[a := swap (h ! a) (Suc i) j]) a)"

definition assign_seats_store ::
  "'g Random \<Rightarrow> 'g \<Rightarrow> store \<Rightarrow> addr \<Rightarrow> int \<Rightarrow> int \<Rightarrow> (int \<times> int) list option \<Rightarrow> int option
     \<Rightarrow> error + ((Seat \<times> pystr) list \<times> store)" where
  "assign_seats_store R os h students rows cols blocked seed =
     (if length (h ! students) > length (available_seats rows cols blocked)
      then Inl ValueError
      else
        let rng = Random_new R os seed;
            (shuffled, h1) = new_list h (h ! students);
            h2 = shuffle_in_place R (length (h1 ! shuffled) - 1) rng h1 shuffled
        in Inr (zip (available_seats rows cols blocked) (h2 ! shuffled), h2))"

section \<open>load_students\<close>

text \<open>
  The string methods of the Python standard library. \<open>isspace\<close> is the whitespace
  that \<open>str.strip()\<close> and \<open>str.split()\<close> remove; \<open>is_linebreak\<close> lists the
  line boundaries of \<open>str.splitlines()\<close>, where a carriage return followed by a line
  feed counts once.
\<close>

definition isspace :: "nat \<Rightarrow> bool" where
  "isspace c \<longleftrightarrow>
     (0x09 \<le> c \<and> c \<le> 0x0D) \<or> (0x1C \<le> c \<and> c \<le> 0x20) \<or> c = 0x85 \<or> c = 0xA0 \<or>
     c = 0x1680 \<or> (0x2000 \<le> c \<and> c \<le> 0x200A) \<or> c = 0x2028 \<or> c = 0x2029 \<or>
     c = 0x202F \<or> c = 0x205F \<or> c = 0x3000"

definition is_linebreak :: "nat \<Rightarrow> bool" where
  "is_linebreak c \<longleftrightarrow>
     (0x0A \<le> c \<and> c \<le> 0x0D) \<or> (0x1C \<le> c \<and> c \<le> 0x1E) \<or> c = 0x85 \<or>
     c = 0x2028 \<or> c = 0x2029"

fun splitlines_aux :: "pystr \<Rightarrow> pystr \<Rightarrow> pystr list" where
  "splitlines_aux cur [] = (if cur = [] then [] else [cur])"
| "splitlines_aux cur [c] = (if is_linebreak c then [cur] else [cur @ [c]])"
| "splitlines_aux cur (c # d # cs) =
     (if c = 0x0D \<and> d = 0x0A then cur # splitlines_aux [] cs
      else if is_linebreak c then cur # splitlines_aux [] (d # cs)
      else splitlines_aux (cur @ [c]) (d # cs))"

definition splitlines :: "pystr \<Rightarrow> pystr list" where
  "splitlines s = splitlines_aux [] s"

definition strip :: "pystr \<Rightarrow> pystr" where
  "strip s = dropWhile isspace (rev (dropWhile isspace (rev s)))"

fun split_aux :: "pystr \<Rightarrow> pystr \<Rightarrow> pystr list" where
  "split_aux cur [] = (if cur = [] then [] else [cur])"
| "split_aux cur (c # cs) =
     (if isspace c then (if cur = [] then split_aux [] cs else cur # split_aux [] cs)
      else split_aux (cur @ [c]) cs)"

definition split :: "pystr \<Rightarrow> pystr list" where
  "split s = split_aux [] s"

text \<open>
  \<^verbatim>\<open>
  for line in text.splitlines():
      line = line.strip()
      if not line:
          continue
      parts = line.split()
      if len(parts) >= 2:
          student_id = parts[0]
          name = "".join(parts[1:])
          students.append(f"{student_id} {name}")
      else:
          students.append(parts[0])
  \<close>
  \<open>load_students\<close> takes the text that \<open>path.read_text\<close> returned. \<open>parts[0]\<close>
  raises \<open>IndexError\<close> on an empty list.
\<close>

fun load_loop :: "pystr list \<Rightarrow> pystr list \<Rightarrow> error + pystr list" where
  "load_loop students [] = Inr students"
| "load_loop students (line # rest) =
     (let line = strip line in
      if line = [] then load_loop students rest
      else
        let parts = split line in
        if length parts \<ge> 2 then
          let student_id = parts ! 0;
              name = concat (drop 1 parts)
          in load_loop (students @ [student_id @ u '' '' @ name]) rest
        else
          (case parts of
             [] \<Rightarrow> Inl IndexError
           | p # _ \<Rightarrow> load_loop (students @ [p]) rest))"

definition load_students :: "pystr \<Rightarrow> error + pystr list" where
  "load_students text = load_loop [] (splitlines text)"

text \<open>
  The loader as the specification words it: one entry per non-blank line, in order;
  a line of two or more tokens gives the first token, a space and the remaining tokens
  concatenated; a line of one token is kept as it is after trimming.
\<close>

definition loader_entry :: "pystr \<Rightarrow> pystr option" where
  "loader_entry line =
     (let t = strip line; tokens = split t in
      if t = [] then None
      else if length tokens \<ge> 2 then Some (hd tokens @ u '' '' @ concat (tl tokens))
      else Some t)"

definition loader_spec :: "pystr \<Rightarrow> pystr list" where
  "loader_spec text = List.map_filter loader_entry (splitlines text)"

section \<open>format_grid\<close>

text \<open>\<open>str(n)\<close> for an integer: its decimal digits, with a minus sign when negative.\<close>

function digits :: "nat \<Rightarrow> pystr" where
  "digits n = (if n < 10 then [48 + n] else digits (n div 10) @ [48 + n mod 10])"
  by pat_completeness auto
termination
  by (relation "measure id") auto

declare digits.simps [simp del]

definition str_int :: "int \<Rightarrow> pystr" where
  "str_int i = (if i < 0 then 45 # digits (nat (- i)) else digits (nat i))"

text \<open>
  \<^verbatim>\<open>
  def label(self) -> str:
      return f"R{self.row}C{self.col}"
  \<close>
\<close>

definition label :: "Seat \<Rightarrow> pystr" where
  "label s = u ''R'' @ str_int (row s) @ u ''C'' @ str_int (col s)"

text \<open>\<open>sep.join(xs)\<close>\<close>

fun join :: "pystr \<Rightarrow> pystr list \<Rightarrow> pystr" where
  "join sep [] = []"
| "join sep [x] = x"
| "join sep (x # y # ys) = x @ sep @ join sep (y # ys)"

text \<open>
  Python list indexing: an index \<open>i\<close> with \<open>-n \<le> i < 0\<close> counts from the end, and an
  index outside \<open>-n \<le> i < n\<close> raises \<open>IndexError\<close>.
\<close>

definition py_index :: "int \<Rightarrow> nat \<Rightarrow> nat option" where
  "py_index i n =
     (if 0 \<le> i \<and> i < int n then Some (nat i)
      else if - int n \<le> i \<and> i < 0 then Some (nat (i + int n))
      else None)"

text \<open>\<^verbatim>\<open>grid[seat.row - 1][seat.col - 1] = student\<close>\<close>

definition set_cell :: "pystr list list \<Rightarrow> Seat \<Rightarrow> pystr \<Rightarrow> error + pystr list list" where
  "set_cell grid seat student =
     (case py_index (row seat - 1) (length grid) of
        None \<Rightarrow> Inl IndexError
      | Some r \<Rightarrow>
          (case py_index (col seat - 1) (length (grid ! r)) of
             None \<Rightarrow> Inl IndexError
           | Some c \<Rightarrow> Inr (grid[r := (grid ! r)[c := student]])))"

fun fill_grid :: "pystr list list \<Rightarrow> (Seat \<times> pystr) list \<Rightarrow> error + pystr list list" where
  "fill_grid grid [] = Inr grid"
| "fill_grid grid ((seat, student) # rest) =
     (case set_cell grid seat student of
        Inl e \<Rightarrow> Inl e
      | Inr grid' \<Rightarrow> fill_grid grid' rest)"

text \<open>
  \<^verbatim>\<open>
  for r, row in enumerate(grid, start=1):
      cells = []
      for c, name in enumerate(row, start=1):
          label = f"R{r}C{c}"
          display = name or "-"
          cells.append(f"{label}: {display}")
      lines.append(" | ".join(cells))
  return "\n".join(lines)
  \<close>
\<close>

definition display :: "pystr \<Rightarrow> pystr" where
  "display name = (if name = [] then u ''-'' else name)"

definition render_cell :: "nat \<Rightarrow> nat \<Rightarrow> pystr \<Rightarrow> pystr" where
  "render_cell r c name =
     (u ''R'' @ str_int (int r) @ u ''C'' @ str_int (int c)) @ u '': '' @ display name"

definition render_row :: "nat \<Rightarrow> pystr list \<Rightarrow> pystr" where
  "render_row r line =
     join (u '' | '') (map (\<lambda>(c, name). render_cell r c name) (List.enumerate 1 line))"

definition render_grid :: "pystr list list \<Rightarrow> pystr" where
  "render_grid grid =
     join [0x0A] (map (\<lambda>(r, line). render_row r line) (List.enumerate 1 grid))"

definition format_grid :: "(Seat \<times> pystr) list \<Rightarrow> int \<Rightarrow> int \<Rightarrow> error + pystr" where
  "format_grid assignments rows cols =
     (case fill_grid (replicate (nat rows) (replicate (nat cols) [])) assignments of
        Inl e \<Rightarrow> Inl e
      | Inr grid \<Rightarrow> Inr (render_grid grid))"

text \<open>
  The grid as the specification words it. \<open>cell_of rows cols s\<close> is the matrix position
  (counted from 0) that \<open>matrix[row - 1][col - 1]\<close> addresses for seat \<open>s\<close>, if any;
  \<open>stored rows cols assignments r c\<close> is the string that the cell of row \<open>r\<close> and column
  \<open>c\<close> (counted from 1) holds after all pairs have been placed in order, the empty
  string if no pair addresses it; \<open>grid_text\<close> renders the cells of every row from left
  to right.
\<close>

definition in_grid :: "int \<Rightarrow> int \<Rightarrow> Seat \<Rightarrow> bool" where
  "in_grid rows cols s \<longleftrightarrow> 1 \<le> row s \<and> row s \<le> rows \<and> 1 \<le> col s \<and> col s \<le> cols"

definition cell_of :: "int \<Rightarrow> int \<Rightarrow> Seat \<Rightarrow> (nat \<times> nat) option" where
  "cell_of rows cols s =
     (case py_index (row s - 1) (nat rows) of
        None \<Rightarrow> None
      | Some r \<Rightarrow>
          (case py_index (col s - 1) (nat cols) of
             None \<Rightarrow> None
           | Some c \<Rightarrow> Some (r, c)))"

definition place :: "int \<Rightarrow> int \<Rightarrow> nat \<times> nat \<Rightarrow> Seat \<times> pystr \<Rightarrow> pystr \<Rightarrow> pystr" where
  "place rows cols p a v = (if cell_of rows cols (fst a) = Some p then snd a else v)"

definition stored :: "int \<Rightarrow> int \<Rightarrow> (Seat \<times> pystr) list \<Rightarrow> nat \<Rightarrow> nat \<Rightarrow> pystr" where
  "stored rows cols assignments r c = fold (place rows cols (r - 1, c - 1)) assignments []"

definition grid_text :: "int \<Rightarrow> int \<Rightarrow> (nat \<Rightarrow> nat \<Rightarrow> pystr) \<Rightarrow> pystr" where
  "grid_text rows cols cell =
     join [0x0A]
       (map (\<lambda>r. join (u '' | '')
                 (map (\<lambda>c. label \<lparr>row = int r, col = int c\<rparr> @ u '': '' @
                            (if cell r c = [] then u ''-'' else cell r c))
                      [1..<Suc (nat cols)]))
            [1..<Suc (nat rows)])"

section \<open>Facts about the generator and the shuffle\<close>

lemma rng_ok_lcg: "rng_ok lcg"
  by (simp add: rng_ok_def lcg_def)

lemma length_swap: "length (swap x i j) = length x"
  by (simp add: swap_def)

lemma mset_swap_in_range:
  "i < length x \<Longrightarrow> j < length x \<Longrightarrow> mset (swap x i j) = mset x"
  unfolding swap_def by (rule mset_swap)

lemma length_shuffle_loop: "length (shuffle_loop R n g x) = length x"
  by (induction n arbitrary: g x) (simp_all add: length_swap split: prod.splits)

lemma mset_shuffle_loop:
  "rng_ok R \<Longrightarrow> n < length x \<Longrightarrow> mset (shuffle_loop R n g x) = mset x"
proof (induction n arbitrary: g x)
  case 0
  then show ?case by simp
next
  case (Suc n)
  obtain j g' where jg: "randbelow R g (Suc n + 1) = (j, g')"
    by (cases "randbelow R g (Suc n + 1)")
  from Suc.prems(1) have "fst (randbelow R g (Suc n + 1)) < Suc n + 1"
    unfolding rng_ok_def by blast
  with jg Suc.prems(2) have j: "j < length x" by simp
  have "mset (shuffle_loop R n g' (swap x (Suc n) j)) = mset (swap x (Suc n) j)"
    using Suc.prems by (intro Suc.IH) (simp_all add: length_swap)
  also have "\<dots> = mset x"
    using Suc.prems(2) j by (simp add: mset_swap_in_range)
  finally show ?case using jg by simp
qed

lemma length_shuffle: "length (shuffle R g x) = length x"
  by (simp add: shuffle_def length_shuffle_loop)

lemma mset_shuffle: "rng_ok R \<Longrightarrow> mset (shuffle R g x) = mset x"
  by (cases "x = []") (simp_all add: shuffle_def mset_shuffle_loop)

lemma length_shuffled: "length (shuffled R os seed students) = length students"
  by (simp add: shuffled_def length_shuffle)

lemma mset_shuffled: "rng_ok R \<Longrightarrow> mset (shuffled R os seed students) = mset students"
  by (simp add: shuffled_def mset_shuffle)

section \<open>Facts about the seat enumeration\<close>

lemma all_seats_product:
  "all_seats rows cols =
     map (\<lambda>(r, c). \<lparr>row = r, col = c\<rparr>) (List.product [1..rows] [1..cols])"
  by (simp add: all_seats_def product_concat_map map_concat comp_def)

lemma inj_mk_seat: "inj (\<lambda>(r, c). \<lparr>row = r, col = c\<rparr>)"
  by (auto simp: inj_on_def)

lemma distinct_all_seats: "distinct (all_seats rows cols)"
  unfolding all_seats_product
  by (auto simp: distinct_map distinct_product inj_on_def)

lemma distinct_available_seats: "distinct (available_seats rows cols blocked)"
  by (simp add: available_seats_def distinct_all_seats)

lemma length_all_seats: "length (all_seats rows cols) = nat rows * nat cols"
  by (simp add: all_seats_product)

lemma set_all_seats: "set (all_seats rows cols) = {s. in_grid rows cols s}"
proof -
  have "s \<in> set (all_seats rows cols) \<longleftrightarrow> in_grid rows cols s" for s
  proof
    assume "s \<in> set (all_seats rows cols)"
    then show "in_grid rows cols s"
      by (auto simp: all_seats_product in_grid_def)
  next
    assume g: "in_grid rows cols s"
    have "s = (\<lambda>(r, c). \<lparr>row = r, col = c\<rparr>) (row s, col s)" by simp
    moreover have "(row s, col s) \<in> set (List.product [1..rows] [1..cols])"
      using g by (simp add: in_grid_def)
    ultimately show "s \<in> set (all_seats rows cols)"
      unfolding all_seats_product set_map by (rule image_eqI)
  qed
  then show ?thesis by blast
qed

lemma all_seats_nth:
  assumes "k < nat rows * nat cols"
  shows "all_seats rows cols ! k =
           \<lparr>row = int (k div nat cols) + 1, col = int (k mod nat cols) + 1\<rparr>"
proof -
  have c: "0 < nat cols" using assms by (cases "nat cols") simp_all
  have d: "k div nat cols < nat rows"
    using assms by (simp add: less_mult_imp_div_less)
  have m: "k mod nat cols < nat cols" using c by simp
  have "List.product [1..rows] [1..cols] ! k =
          ([1..rows] ! (k div nat cols), [1..cols] ! (k mod nat cols))"
    using assms by (simp add: product_nth)
  moreover have "[1..rows] ! (k div nat cols) = 1 + int (k div nat cols)"
    using d by (intro nth_upto) linarith
  moreover have "[1..cols] ! (k mod nat cols) = 1 + int (k mod nat cols)"
    using m by (intro nth_upto) linarith
  ultimately show ?thesis
    using assms by (simp add: all_seats_product)
qed

lemma all_seats_row_major:
  "all_seats rows cols =
     map (\<lambda>k. \<lparr>row = int (k div nat cols) + 1, col = int (k mod nat cols) + 1\<rparr>)
       [0..<nat rows * nat cols]"
  by (rule nth_equalityI) (simp_all add: length_all_seats all_seats_nth)

lemma available_seats_unblocked:
  "blocked = None \<or> blocked = Some [] \<Longrightarrow>
     available_seats rows cols blocked = all_seats rows cols"
  by (auto simp: available_seats_def blocked_set_def)

lemma set_available_seats:
  "set (available_seats rows cols blocked) = {s. in_grid rows cols s} - blocked_set blocked"
  by (auto simp: available_seats_def set_all_seats)

lemma length_available_le:
  "length (available_seats rows cols blocked) \<le> nat rows * nat cols"
  unfolding available_seats_def length_all_seats [symmetric] by (rule length_filter_le)

lemma available_seats_cong:
  assumes "\<And>s. in_grid rows cols s \<Longrightarrow> s \<in> blocked_set b1 \<longleftrightarrow> s \<in> blocked_set b2"
  shows "available_seats rows cols b1 = available_seats rows cols b2"
  unfolding available_seats_def
  by (rule filter_cong) (simp_all add: set_all_seats assms)

lemma blocked_set_Cons:
  "blocked_set (Some ((r, c) # bs)) = insert \<lparr>row = r, col = c\<rparr> (blocked_set (Some bs))"
  by (simp add: blocked_set_def)

lemma assign_seats_cong:
  "available_seats rows cols b1 = available_seats rows cols b2 \<Longrightarrow>
   assign_seats R os students rows cols b1 seed = assign_seats R os students rows cols b2 seed"
  by (simp add: assign_seats_def)

lemma seat_in_blocked_set: "s \<in> blocked_set (Some bs) \<longleftrightarrow> (row s, col s) \<in> set bs"
proof
  assume "s \<in> blocked_set (Some bs)"
  then show "(row s, col s) \<in> set bs" by (auto simp: blocked_set_def)
next
  assume a: "(row s, col s) \<in> set bs"
  have e: "s = (\<lambda>(r, c). \<lparr>row = r, col = c\<rparr>) (row s, col s)" by simp
  from e a show "s \<in> blocked_set (Some bs)"
    unfolding blocked_set_def option.case by (rule image_eqI)
qed

lemma shuffle_in_place_eq:
  "a < length h \<Longrightarrow> shuffle_in_place R n g h a = h[a := shuffle_loop R n g (h ! a)]"
  by (induction n arbitrary: g h) (simp_all split: prod.splits)

lemma not_blocked_iff:
  "s \<notin> blocked_set blocked \<longleftrightarrow>
     (row s, col s) \<notin> set (case blocked of None \<Rightarrow> [] | Some bs \<Rightarrow> bs)"
  by (cases blocked) (simp_all add: seat_in_blocked_set, simp add: blocked_set_def)

lemma available_seats_filtered:
  "available_seats rows cols blocked =
     filter (\<lambda>s. (row s, col s) \<notin> set (case blocked of None \<Rightarrow> [] | Some bs \<Rightarrow> bs))
       (map (\<lambda>k. \<lparr>row = int (k div nat cols) + 1, col = int (k mod nat cols) + 1\<rparr>)
          [0..<nat rows * nat cols])"
  unfolding available_seats_def all_seats_row_major not_blocked_iff ..

section \<open>Claims about assign_seats\<close>

text \<open>
  C1. Whenever the students are no more than the available seats, \<open>assign_seats\<close>
  returns a list of exactly as many pairs as there are students; no seat occurs twice
  among the pairs; the students of the pairs are the input students, each entry of the
  input occurring exactly once (equality of multisets, so that two students of the same
  name are two entries); and the seats used are the first available ones, the trailing
  seats being left unassigned. The generator is any one that keeps the contract of
  \<open>_randbelow\<close>; rows and columns need not even be positive.
\<close>

theorem assign_seats_assigns_every_student:
  assumes "rng_ok R"
    and "length students \<le> length (available_seats rows cols blocked)"
  shows "\<exists>res. assign_seats R os students rows cols blocked seed = Inr res \<and>
           length res = length students \<and>
           distinct (map fst res) \<and>
           mset (map snd res) = mset students \<and>
           map fst res = take (length students) (available_seats rows cols blocked)"
proof -
  let ?av = "available_seats rows cols blocked"
  let ?sh = "shuffled R os seed students"
  have len: "length ?sh = length students" by (rule length_shuffled)
  have r: "assign_seats R os students rows cols blocked seed = Inr (zip ?av ?sh)"
    using assms(2) by (simp add: assign_seats_def)
  have l: "length (zip ?av ?sh) = length students"
    using assms(2) len by simp
  have f: "map fst (zip ?av ?sh) = take (length students) ?av"
    using len by (simp add: map_fst_zip_take min_def assms(2))
  have s: "map snd (zip ?av ?sh) = ?sh"
    using assms(2) len by (simp add: map_snd_zip_take min_def)
  have d: "distinct (map fst (zip ?av ?sh))"
    unfolding f by (simp add: distinct_available_seats)
  have m: "mset (map snd (zip ?av ?sh)) = mset students"
    unfolding s using assms(1) by (rule mset_shuffled)
  from r l d m f show ?thesis by blast
qed

theorem assign_seats_assigns_every_student_witness:
  "rng_ok lcg \<and>
   length [u ''A'', u ''B'', u ''C''] \<le> length (available_seats 2 2 (Some [(1, 1)])) \<and>
   (\<exists>res. assign_seats lcg 0 [u ''A'', u ''B'', u ''C''] 2 2 (Some [(1, 1)]) (Some 42) = Inr res \<and>
      length res = length [u ''A'', u ''B'', u ''C''] \<and>
      distinct (map fst res) \<and>
      mset (map snd res) = mset [u ''A'', u ''B'', u ''C''] \<and>
      map fst res =
        take (length [u ''A'', u ''B'', u ''C'']) (available_seats 2 2 (Some [(1, 1)])))"
proof -
  have h: "length [u ''A'', u ''B'', u ''C''] \<le> length (available_seats 2 2 (Some [(1, 1)]))"
    by code_simp
  show ?thesis
    using rng_ok_lcg h assign_seats_assigns_every_student [OF rng_ok_lcg h, of 0 "Some 42"]
    by blast
qed

text \<open>
  C2. \<open>assign_seats\<close> raises the capacity error (\<open>ValueError\<close>) exactly when the
  students are more than the available seats, and returns a result exactly when they are
  not; it raises nothing else. In particular one student too many raises the error, and
  as many students as available seats succeeds with every available seat assigned, in
  order.
\<close>

theorem assign_seats_capacity_error:
  "(assign_seats R os students rows cols blocked seed = Inl ValueError \<longleftrightarrow>
      length students > length (available_seats rows cols blocked)) \<and>
   ((\<exists>res. assign_seats R os students rows cols blocked seed = Inr res) \<longleftrightarrow>
      length students \<le> length (available_seats rows cols blocked)) \<and>
   assign_seats R os students rows cols blocked seed \<noteq> Inl IndexError \<and>
   (length students = length (available_seats rows cols blocked) + 1 \<longrightarrow>
      assign_seats R os students rows cols blocked seed = Inl ValueError) \<and>
   (length students = length (available_seats rows cols blocked) \<longrightarrow>
      (\<exists>res. assign_seats R os students rows cols blocked seed = Inr res \<and>
         map fst res = available_seats rows cols blocked))"
  by (auto simp: assign_seats_def length_shuffled)

theorem assign_seats_capacity_error_witness:
  "length [u ''A'', u ''B'', u ''C'', u ''D''] = length (available_seats 2 2 (Some [(1, 1)])) + 1 \<and>
   assign_seats lcg 0 [u ''A'', u ''B'', u ''C'', u ''D''] 2 2 (Some [(1, 1)]) (Some 42)
     = Inl ValueError \<and>
   length [u ''A'', u ''B'', u ''C''] = length (available_seats 2 2 (Some [(1, 1)])) \<and>
   (\<exists>res. assign_seats lcg 0 [u ''A'', u ''B'', u ''C''] 2 2 (Some [(1, 1)]) (Some 42) = Inr res \<and>
      map fst res = available_seats 2 2 (Some [(1, 1)]))"
proof -
  have h4: "length [u ''A'', u ''B'', u ''C'', u ''D''] =
              length (available_seats 2 2 (Some [(1, 1)])) + 1"
    by code_simp
  have h3: "length [u ''A'', u ''B'', u ''C''] = length (available_seats 2 2 (Some [(1, 1)]))"
    by code_simp
  show ?thesis
    using h4 h3
      assign_seats_capacity_error
        [of lcg 0 "[u ''A'', u ''B'', u ''C'', u ''D'']" 2 2 "Some [(1, 1)]" "Some 42"]
      assign_seats_capacity_error
        [of lcg 0 "[u ''A'', u ''B'', u ''C'']" 2 2 "Some [(1, 1)]" "Some 42"]
    by blast
qed

text \<open>
  C3. With an integer seed the result of \<open>assign_seats\<close> is a function of its
  arguments alone: two calls with the same seed and the same other inputs return the same
  list of pairs, in the same order, whatever the state of the operating system's entropy
  source is at either call.
\<close>

theorem assign_seats_deterministic:
  "assign_seats R os1 students rows cols blocked (Some seed) =
   assign_seats R os2 students rows cols blocked (Some seed)"
  by (simp add: assign_seats_def shuffled_def Random_new_def)

theorem assign_seats_deterministic_witness:
  "assign_seats lcg 3 [u ''A'', u ''B'', u ''C''] 2 2 (Some [(1, 1)]) (Some 42) =
   assign_seats lcg 8 [u ''A'', u ''B'', u ''C''] 2 2 (Some [(1, 1)]) (Some 42)"
  by (rule assign_seats_deterministic)

text \<open>
  C4. No blocked seat occurs in the result: the (row, col) of every returned seat is
  outside the blocked list. A blocked entry outside the grid has no effect: adding such
  an entry to the blocked list, or removing all such entries from it, leaves the outcome
  of \<open>assign_seats\<close> (the result or the error) the same.
\<close>

theorem assign_seats_avoids_blocked:
  "(\<forall>res. assign_seats R os students rows cols (Some bs) seed = Inr res \<longrightarrow>
      (\<forall>(s, n) \<in> set res. (row s, col s) \<notin> set bs)) \<and>
   (\<not> in_grid rows cols \<lparr>row = r, col = c\<rparr> \<longrightarrow>
      assign_seats R os students rows cols (Some ((r, c) # bs)) seed =
      assign_seats R os students rows cols (Some bs) seed) \<and>
   assign_seats R os students rows cols
       (Some (filter (\<lambda>(r, c). in_grid rows cols \<lparr>row = r, col = c\<rparr>) bs)) seed =
     assign_seats R os students rows cols (Some bs) seed"
proof (intro conjI allI impI)
  fix res
  assume r: "assign_seats R os students rows cols (Some bs) seed = Inr res"
  show "\<forall>(s, n) \<in> set res. (row s, col s) \<notin> set bs"
  proof (clarify)
    fix s n
    assume m: "(s, n) \<in> set res" and b: "(row s, col s) \<in> set bs"
    from r have "res = zip (available_seats rows cols (Some bs)) (shuffled R os seed students)"
      by (simp add: assign_seats_def split: if_splits)
    with m have "s \<in> set (available_seats rows cols (Some bs))"
      by (auto dest: set_zip_leftD)
    then have "s \<notin> blocked_set (Some bs)"
      by (simp add: set_available_seats)
    with b show False by (simp add: seat_in_blocked_set)
  qed
next
  assume o: "\<not> in_grid rows cols \<lparr>row = r, col = c\<rparr>"
  have "available_seats rows cols (Some ((r, c) # bs)) = available_seats rows cols (Some bs)"
    using o by (intro available_seats_cong) (auto simp: blocked_set_Cons)
  then show "assign_seats R os students rows cols (Some ((r, c) # bs)) seed =
      assign_seats R os students rows cols (Some bs) seed"
    by (rule assign_seats_cong)
next
  have "available_seats rows cols
          (Some (filter (\<lambda>(r, c). in_grid rows cols \<lparr>row = r, col = c\<rparr>) bs)) =
        available_seats rows cols (Some bs)"
    by (intro available_seats_cong) (auto simp: seat_in_blocked_set in_grid_def)
  then show "assign_seats R os students rows cols
       (Some (filter (\<lambda>(r, c). in_grid rows cols \<lparr>row = r, col = c\<rparr>) bs)) seed =
     assign_seats R os students rows cols (Some bs) seed"
    by (rule assign_seats_cong)
qed

theorem assign_seats_avoids_blocked_witness:
  "assign_seats lcg 0 [u ''A'', u ''B'', u ''C''] 2 2 (Some [(5, 5), (1, 1)]) (Some 42) =
     Inr [(\<lparr>row = 1, col = 2\<rparr>, u ''C''), (\<lparr>row = 2, col = 1\<rparr>, u ''B''),
          (\<lparr>row = 2, col = 2\<rparr>, u ''A'')] \<and>
   list_all (\<lambda>(s, n). (row s, col s) \<notin> set [(5, 5), (1, 1)])
     [(\<lparr>row = 1, col = 2\<rparr>, u ''C''), (\<lparr>row = 2, col = 1\<rparr>, u ''B''),
      (\<lparr>row = 2, col = 2\<rparr>, u ''A'')] \<and>
   \<not> in_grid 2 2 \<lparr>row = 5, col = 5\<rparr> \<and>
   assign_seats lcg 0 [u ''A'', u ''B'', u ''C''] 2 2 (Some [(5, 5), (1, 1)]) (Some 42) =
   assign_seats lcg 0 [u ''A'', u ''B'', u ''C''] 2 2 (Some [(1, 1)]) (Some 42)"
proof -
  have e: "assign_seats lcg 0 [u ''A'', u ''B'', u ''C''] 2 2 (Some [(5, 5), (1, 1)]) (Some 42) =
     Inr [(\<lparr>row = 1, col = 2\<rparr>, u ''C''), (\<lparr>row = 2, col = 1\<rparr>, u ''B''),
          (\<lparr>row = 2, col = 2\<rparr>, u ''A'')]"
    by code_simp
  have o: "\<not> in_grid 2 2 \<lparr>row = 5, col = 5\<rparr>"
    by (simp add: in_grid_def)
  show ?thesis
    using e o
      assign_seats_avoids_blocked [of lcg 0 "[u ''A'', u ''B'', u ''C'']" 2 2 "[(5, 5), (1, 1)]" "Some 42" 5 5]
      assign_seats_avoids_blocked [of lcg 0 "[u ''A'', u ''B'', u ''C'']" 2 2 "[(1, 1)]" "Some 42" 5 5]
    unfolding list_all_iff by blast
qed

text \<open>
  C5. The \<open>i\<close>-th returned pair is the \<open>i\<close>-th available seat with the \<open>i\<close>-th
  shuffled student, where the available seats are the seats of the grid in row-major
  order (position \<open>k\<close> is row \<open>k div cols + 1\<close>, column \<open>k mod cols + 1\<close>) from
  which every seat whose (row, col) is in the blocked list has been removed, the order
  of the others kept. With nothing blocked the seat of the \<open>k\<close>-th pair is therefore
  \<open>(k div cols + 1, k mod cols + 1)\<close>.
\<close>

theorem assign_seats_row_major:
  assumes "assign_seats R os students rows cols blocked seed = Inr res"
  shows "length res = length students \<and>
         (\<forall>i<length res. res ! i =
            (filter (\<lambda>s. (row s, col s) \<notin> set (case blocked of None \<Rightarrow> [] | Some bs \<Rightarrow> bs))
               (map (\<lambda>k. \<lparr>row = int (k div nat cols) + 1, col = int (k mod nat cols) + 1\<rparr>)
                  [0..<nat rows * nat cols]) ! i,
             shuffled R os seed students ! i)) \<and>
         (blocked = None \<or> blocked = Some [] \<longrightarrow>
            (\<forall>k<length res. fst (res ! k) =
               \<lparr>row = int k div cols + 1, col = int k mod cols + 1\<rparr>))"
proof -
  let ?av = "available_seats rows cols blocked"
  let ?sh = "shuffled R os seed students"
  from assms have le: "length students \<le> length ?av" and res: "res = zip ?av ?sh"
    by (simp_all add: assign_seats_def split: if_splits)
  have len: "length res = length students"
    using le by (simp add: res length_shuffled)
  have nth0: "\<forall>i<length res. res ! i = (?av ! i, ?sh ! i)"
    by (simp add: res)
  have nth: "\<forall>i<length res. res ! i =
            (filter (\<lambda>s. (row s, col s) \<notin> set (case blocked of None \<Rightarrow> [] | Some bs \<Rightarrow> bs))
               (map (\<lambda>k. \<lparr>row = int (k div nat cols) + 1, col = int (k mod nat cols) + 1\<rparr>)
                  [0..<nat rows * nat cols]) ! i,
             ?sh ! i)"
    using nth0 unfolding available_seats_filtered [symmetric] .
  have un: "\<forall>k<length res. fst (res ! k) =
               \<lparr>row = int k div cols + 1, col = int k mod cols + 1\<rparr>"
    if b: "blocked = None \<or> blocked = Some []"
  proof (intro allI impI)
    fix k assume k: "k < length res"
    have a: "?av = all_seats rows cols" using b by (rule available_seats_unblocked)
    have kk: "k < nat rows * nat cols"
      using k le len by (simp add: a length_all_seats)
    then have c: "0 < cols" by (cases "0 < cols") simp_all
    have "fst (res ! k) = all_seats rows cols ! k"
      using k nth0 a by simp
    also have "\<dots> = \<lparr>row = int (k div nat cols) + 1, col = int (k mod nat cols) + 1\<rparr>"
      using kk by (rule all_seats_nth)
    also have "\<dots> = \<lparr>row = int k div cols + 1, col = int k mod cols + 1\<rparr>"
      using c by (simp add: zdiv_int zmod_int)
    finally show "fst (res ! k) = \<lparr>row = int k div cols + 1, col = int k mod cols + 1\<rparr>" .
  qed
  from len nth un show ?thesis by blast
qed

theorem assign_seats_row_major_witness:
  "assign_seats lcg 0 [u ''A'', u ''B'', u ''C''] 3 2 (Some [(1, 1), (2, 2)]) (Some 42) =
     Inr [(\<lparr>row = 1, col = 2\<rparr>, u ''C''), (\<lparr>row = 2, col = 1\<rparr>, u ''B''),
          (\<lparr>row = 3, col = 1\<rparr>, u ''A'')] \<and>
   [(\<lparr>row = 1, col = 2\<rparr>, u ''C''), (\<lparr>row = 2, col = 1\<rparr>, u ''B''),
          (\<lparr>row = 3, col = 1\<rparr>, u ''A'')] ! 2 =
     (filter (\<lambda>s. (row s, col s) \<notin> set [(1, 1), (2, 2)])
        (map (\<lambda>k. \<lparr>row = int (k div nat 2) + 1, col = int (k mod nat 2) + 1\<rparr>)
           [0..<nat 3 * nat 2]) ! 2,
      shuffled lcg 0 (Some 42) [u ''A'', u ''B'', u ''C''] ! 2) \<and>
   filter (\<lambda>s. (row s, col s) \<notin> set [(1, 1), (2, 2)])
        (map (\<lambda>k. \<lparr>row = int (k div nat 2) + 1, col = int (k mod nat 2) + 1\<rparr>)
           [0..<nat 3 * nat 2]) ! 2 = \<lparr>row = 3, col = 1\<rparr> \<and>
   assign_seats lcg 0 [u ''A'', u ''B'', u ''C''] 2 2 None (Some 42) =
     Inr [(\<lparr>row = 1, col = 1\<rparr>, u ''C''), (\<lparr>row = 1, col = 2\<rparr>, u ''B''),
          (\<lparr>row = 2, col = 1\<rparr>, u ''A'')] \<and>
   fst ([(\<lparr>row = 1, col = 1\<rparr>, u ''C''), (\<lparr>row = 1, col = 2\<rparr>, u ''B''),
          (\<lparr>row = 2, col = 1\<rparr>, u ''A'')] ! 2) =
        \<lparr>row = int 2 div 2 + 1, col = int 2 mod 2 + 1\<rparr>"
proof -
  have b: "assign_seats lcg 0 [u ''A'', u ''B'', u ''C''] 3 2 (Some [(1, 1), (2, 2)]) (Some 42) =
     Inr [(\<lparr>row = 1, col = 2\<rparr>, u ''C''), (\<lparr>row = 2, col = 1\<rparr>, u ''B''),
          (\<lparr>row = 3, col = 1\<rparr>, u ''A'')]"
    by code_simp
  have e: "assign_seats lcg 0 [u ''A'', u ''B'', u ''C''] 2 2 None (Some 42) =
     Inr [(\<lparr>row = 1, col = 1\<rparr>, u ''C''), (\<lparr>row = 1, col = 2\<rparr>, u ''B''),
          (\<lparr>row = 2, col = 1\<rparr>, u ''A'')]"
    by code_simp
  have f: "filter (\<lambda>s. (row s, col s) \<notin> set [(1, 1), (2, 2)])
        (map (\<lambda>k. \<lparr>row = int (k div nat 2) + 1, col = int (k mod nat 2) + 1\<rparr>)
           [0..<nat 3 * nat 2]) ! 2 = \<lparr>row = 3, col = 1\<rparr>"
    by code_simp
  have b2: "[(\<lparr>row = 1, col = 2\<rparr>, u ''C''), (\<lparr>row = 2, col = 1\<rparr>, u ''B''),
          (\<lparr>row = 3, col = 1\<rparr>, u ''A'')] ! 2 =
     (filter (\<lambda>s. (row s, col s) \<notin> set [(1, 1), (2, 2)])
        (map (\<lambda>k. \<lparr>row = int (k div nat 2) + 1, col = int (k mod nat 2) + 1\<rparr>)
           [0..<nat 3 * nat 2]) ! 2,
      shuffled lcg 0 (Some 42) [u ''A'', u ''B'', u ''C''] ! 2)"
  proof -
    have l: "2 < length [(\<lparr>row = 1, col = 2\<rparr>, u ''C''), (\<lparr>row = 2, col = 1\<rparr>, u ''B''),
          (\<lparr>row = 3, col = 1\<rparr>, u ''A'')]"
      by simp
    show ?thesis
      using assign_seats_row_major [OF b, THEN conjunct2, THEN conjunct1, rule_format, OF l]
      by (simp only: option.case)
  qed
  have e2: "fst ([(\<lparr>row = 1, col = 1\<rparr>, u ''C''), (\<lparr>row = 1, col = 2\<rparr>, u ''B''),
          (\<lparr>row = 2, col = 1\<rparr>, u ''A'')] ! 2) =
        \<lparr>row = int 2 div 2 + 1, col = int 2 mod 2 + 1\<rparr>"
    using assign_seats_row_major [OF e] by simp
  from b b2 f e e2 show ?thesis by blast
qed

section \<open>The students list is left as it was\<close>

text \<open>
  C6. \<open>assign_seats\<close> shuffles a copy: when the call returns, the list object that
  was passed as \<open>students\<close> holds the same elements in the same order as before the
  call, and so does every other object that existed before the call; the pairs returned
  are those of the value-level model \<open>assign_seats\<close>. The call returns whenever the
  students are no more than the available seats.
\<close>

theorem assign_seats_leaves_students:
  assumes "students < length h"
  shows "(\<forall>res h'. assign_seats_store R os h students rows cols blocked seed = Inr (res, h') \<longrightarrow>
            h' ! students = h ! students \<and>
            take (length h) h' = h \<and>
            assign_seats R os (h ! students) rows cols blocked seed = Inr res) \<and>
         (length (h ! students) \<le> length (available_seats rows cols blocked) \<longrightarrow>
            (\<exists>res h'. assign_seats_store R os h students rows cols blocked seed = Inr (res, h')))"
  using assms
  by (auto simp add: assign_seats_store_def assign_seats_def new_list_def shuffle_in_place_eq
      shuffled_def shuffle_def nth_append Let_def)

theorem assign_seats_leaves_students_witness:
  "(0::nat) < length [[u ''A'', u ''B'', u ''C'']] \<and>
   length ([[u ''A'', u ''B'', u ''C'']] ! 0) \<le> length (available_seats 2 2 (Some [(1, 1)])) \<and>
   (\<exists>res h'. assign_seats_store lcg 0 [[u ''A'', u ''B'', u ''C'']] 0 2 2 (Some [(1, 1)]) (Some 42)
        = Inr (res, h') \<and>
      h' ! 0 = [[u ''A'', u ''B'', u ''C'']] ! 0)"
proof -
  have h0: "(0::nat) < length [[u ''A'', u ''B'', u ''C'']]" by simp
  have h1: "length ([[u ''A'', u ''B'', u ''C'']] ! 0) \<le>
              length (available_seats 2 2 (Some [(1, 1)]))"
    by code_simp
  show ?thesis
    using h0 h1
      assign_seats_leaves_students [OF h0, of lcg 0 2 2 "Some [(1, 1)]" "Some 42"]
    by blast
qed

section \<open>Claims about load_students\<close>


lemma strip_hd: "strip s \<noteq> [] \<Longrightarrow> \<not> isspace (hd (strip s))"
  unfolding strip_def by (rule hd_dropWhile)

lemma strip_last:
  assumes "strip s \<noteq> []"
  shows "\<not> isspace (last (strip s))"
proof -
  let ?r = "dropWhile isspace (rev s)"
  from assms have "\<exists>x\<in>set (rev ?r). \<not> isspace x"
    unfolding strip_def dropWhile_eq_Nil_conv by blast
  then obtain x where x: "x \<in> set (rev ?r)" "\<not> isspace x" by blast
  have ne: "?r \<noteq> []"
  proof
    assume z: "?r = []"
    from x(1) show False unfolding z by simp
  qed
  have "last (strip s) = last (rev ?r)"
    unfolding strip_def using x by (rule dropWhile_last)
  also have "\<dots> = hd ?r" by (simp add: last_rev)
  finally show ?thesis using hd_dropWhile [OF ne] by simp
qed

lemma strip_blank: "strip s = [] \<longleftrightarrow> (\<forall>c\<in>set s. isspace c)"
proof
  assume e: "strip s = []"
  let ?r = "dropWhile isspace (rev s)"
  have a: "\<forall>x\<in>set ?r. isspace x"
    using e unfolding strip_def dropWhile_eq_Nil_conv by simp
  have "?r = []"
  proof (rule ccontr)
    assume ne: "?r \<noteq> []"
    then have "hd ?r \<in> set ?r" by (rule hd_in_set)
    with a have "isspace (hd ?r)" by blast
    with hd_dropWhile [OF ne] show False by blast
  qed
  then show "\<forall>c\<in>set s. isspace c" by simp
next
  assume "\<forall>c\<in>set s. isspace c"
  then show "strip s = []" by (auto simp: strip_def dest: set_dropWhileD)
qed

lemma split_aux_nonempty:
  "cur \<noteq> [] \<or> (\<exists>c\<in>set s. \<not> isspace c) \<Longrightarrow> split_aux cur s \<noteq> []"
  by (induction s arbitrary: cur) auto

lemma split_aux_nospace:
  "\<forall>c\<in>set s. \<not> isspace c \<Longrightarrow> split_aux cur s = (if cur @ s = [] then [] else [cur @ s])"
  by (induction s arbitrary: cur) auto

lemma split_aux_single:
  "cur \<noteq> [] \<Longrightarrow> length (split_aux cur s) < 2 \<Longrightarrow> (s \<noteq> [] \<longrightarrow> \<not> isspace (last s)) \<Longrightarrow>
     \<forall>c\<in>set s. \<not> isspace c"
proof (induction s arbitrary: cur)
  case Nil
  then show ?case by simp
next
  case (Cons c cs)
  show ?case
  proof (cases "isspace c")
    case True
    with Cons.prems(3) have cs: "cs \<noteq> []" "\<not> isspace (last cs)" by (auto split: if_splits)
    then have "\<exists>d\<in>set cs. \<not> isspace d" using last_in_set by blast
    then have "split_aux [] cs \<noteq> []" by (simp add: split_aux_nonempty)
    then have "length (split_aux [] cs) \<ge> 1" by (cases "split_aux [] cs") simp_all
    with True Cons.prems(1,2) show ?thesis by simp
  next
    case False
    have "\<forall>d\<in>set cs. \<not> isspace d"
    proof (rule Cons.IH)
      show "cur @ [c] \<noteq> []" by simp
      show "length (split_aux (cur @ [c]) cs) < 2" using False Cons.prems(2) by simp
      show "cs \<noteq> [] \<longrightarrow> \<not> isspace (last cs)" using Cons.prems(3) by auto
    qed
    with False show ?thesis by simp
  qed
qed

lemma split_stripped_single:
  assumes "strip s \<noteq> []" and "length (split (strip s)) < 2"
  shows "split (strip s) = [strip s]"
proof -
  obtain a t where t: "strip s = a # t" using assms(1) by (cases "strip s") simp_all
  have a: "\<not> isspace a" using strip_hd [OF assms(1)] t by simp
  have l: "t \<noteq> [] \<longrightarrow> \<not> isspace (last t)"
    using strip_last [OF assms(1)] t by (cases "t = []") simp_all
  have e: "split (strip s) = split_aux [a] t" using a t by (simp add: split_def)
  have "\<forall>c\<in>set t. \<not> isspace c"
    using assms(2) l unfolding e by (intro split_aux_single [of "[a]"]) simp_all
  then have "split_aux [a] t = [a # t]" by (simp add: split_aux_nospace)
  with e t show ?thesis by simp
qed

lemma load_loop_spec:
  "load_loop students lines = Inr (students @ List.map_filter loader_entry lines)"
proof (induction lines arbitrary: students)
  case Nil
  then show ?case by simp
next
  case (Cons line rest)
  show ?case
  proof (cases "strip line = []")
    case True
    then show ?thesis by (simp add: Cons.IH loader_entry_def)
  next
    case ne: False
    show ?thesis
    proof (cases "length (split (strip line)) \<ge> 2")
      case True
      then obtain p q ps where "split (strip line) = p # q # ps"
        by (cases "split (strip line)"; cases "tl (split (strip line))") auto
      then show ?thesis
        using ne by (simp add: Cons.IH loader_entry_def Let_def)
    next
      case False
      then have "split (strip line) = [strip line]"
        using ne by (intro split_stripped_single) simp_all
      then show ?thesis
        using ne by (simp add: Cons.IH loader_entry_def Let_def)
    qed
  qed
qed

lemma load_students_spec: "load_students text = Inr (loader_spec text)"
  by (simp add: load_students_def loader_spec_def load_loop_spec)

text \<open>
  C7. \<open>load_students\<close> never fails on a text and returns what the specification
  describes: in the order of the lines, one entry for each line that is not blank; for a
  line of two or more whitespace-separated tokens the entry is the first token, one
  space, and the remaining tokens concatenated with nothing between them; a line of a
  single token gives the trimmed line unchanged; a blank line gives nothing. The line
  \<open>007   Jane   Doe\<close> loads as \<open>007 JaneDoe\<close>, the line \<open>Solo\<close> as \<open>Solo\<close>, and
  in a text of five lines of which three are blank only the two others give an entry.
\<close>

theorem load_students_entries:
  "load_students text = Inr (loader_spec text) \<and>
   load_students (u ''007   Jane   Doe'') = Inr [u ''007 JaneDoe''] \<and>
   load_students (u ''Solo'') = Inr [u ''Solo''] \<and>
   load_students (u ''  '' @ [0x0A] @ u ''1 Ann Lee'' @ [0x0A, 0x0A] @ u '' Bob '' @ [0x0A, 0x09])
     = Inr [u ''1 AnnLee'', u ''Bob'']"
proof -
  have a: "load_students text = Inr (loader_spec text)"
    by (rule load_students_spec)
  have b: "load_students (u ''007   Jane   Doe'') = Inr [u ''007 JaneDoe'']"
    by (simp add: load_students_def splitlines_def strip_def split_def isspace_def
        is_linebreak_def u_def)
  have c: "load_students (u ''Solo'') = Inr [u ''Solo'']"
    by (simp add: load_students_def splitlines_def strip_def split_def isspace_def
        is_linebreak_def u_def)
  have d: "load_students
             (u ''  '' @ [0x0A] @ u ''1 Ann Lee'' @ [0x0A, 0x0A] @ u '' Bob '' @ [0x0A, 0x09])
           = Inr [u ''1 AnnLee'', u ''Bob'']"
    by (simp add: load_students_def splitlines_def strip_def split_def isspace_def
        is_linebreak_def u_def)
  from a b c d show ?thesis by blast
qed

theorem load_students_entries_witness:
  "load_students (u ''42 Ada  Lovelace'') = Inr (loader_spec (u ''42 Ada  Lovelace'')) \<and>
   loader_spec (u ''42 Ada  Lovelace'') = [u ''42 AdaLovelace'']"
proof -
  have "loader_spec (u ''42 Ada  Lovelace'') = [u ''42 AdaLovelace'']"
    by (simp add: loader_spec_def loader_entry_def splitlines_def strip_def split_def
        isspace_def is_linebreak_def u_def)
  then show ?thesis
    using load_students_entries [of "u ''42 Ada  Lovelace''"] by blast
qed

section \<open>Claims about format_grid\<close>


lemma py_index_less: "py_index i n = Some k \<Longrightarrow> k < n"
  by (auto simp: py_index_def split: if_splits)

lemma cell_of_less: "cell_of rows cols s = Some (r, c) \<Longrightarrow> r < nat rows \<and> c < nat cols"
  by (auto simp: cell_of_def split: option.splits dest: py_index_less)

lemma cell_of_in_grid:
  "in_grid rows cols s \<Longrightarrow> cell_of rows cols s = Some (nat (row s - 1), nat (col s - 1))"
  by (auto simp: cell_of_def in_grid_def py_index_def)

lemma set_cell_char:
  assumes "length g = nat rows" and "\<forall>i<nat rows. length (g ! i) = nat cols"
  shows "set_cell g s n =
           (case cell_of rows cols s of
              None \<Rightarrow> Inl IndexError
            | Some (r, c) \<Rightarrow> Inr (g[r := (g ! r)[c := n]]))"
proof (cases "py_index (row s - 1) (nat rows)")
  case None
  then show ?thesis by (simp add: set_cell_def cell_of_def assms(1))
next
  case (Some r)
  then have "r < nat rows" by (rule py_index_less)
  with assms(2) have "length (g ! r) = nat cols" by simp
  with Some show ?thesis
    by (simp add: set_cell_def cell_of_def assms(1) split: option.splits)
qed

lemma fill_grid_char:
  assumes "length g = nat rows" and "\<forall>i<nat rows. length (g ! i) = nat cols"
  shows "fill_grid g asg =
           (if \<forall>p\<in>set asg. cell_of rows cols (fst p) \<noteq> None
            then Inr (map (\<lambda>r. map (\<lambda>c. fold (place rows cols (r, c)) asg (g ! r ! c))
                                  [0..<nat cols]) [0..<nat rows])
            else Inl IndexError)"
  using assms
proof (induction asg arbitrary: g)
  case Nil
  have "map (\<lambda>r. map (\<lambda>c. g ! r ! c) [0..<nat cols]) [0..<nat rows] = g"
  proof (rule nth_equalityI)
    show "length (map (\<lambda>r. map (\<lambda>c. g ! r ! c) [0..<nat cols]) [0..<nat rows]) = length g"
      using Nil(1) by simp
  next
    fix i assume "i < length (map (\<lambda>r. map (\<lambda>c. g ! r ! c) [0..<nat cols]) [0..<nat rows])"
    then have i: "i < nat rows" by simp
    then have l: "length (g ! i) = nat cols" using Nil(2) by simp
    have "map (\<lambda>c. g ! i ! c) [0..<nat cols] = g ! i"
      using map_nth [of "g ! i"] l by simp
    then show "map (\<lambda>r. map (\<lambda>c. g ! r ! c) [0..<nat cols]) [0..<nat rows] ! i = g ! i"
      using i by simp
  qed
  then show ?case by simp
next
  case (Cons a asg)
  obtain s n where a: "a = (s, n)" by (cases a)
  show ?case
  proof (cases "cell_of rows cols s")
    case None
    have "set_cell g s n = Inl IndexError"
      using set_cell_char [OF Cons.prems, of s n] None by simp
    then show ?thesis
      using None by (simp add: a)
  next
    case (Some p)
    obtain r0 c0 where p: "p = (r0, c0)" by (cases p)
    let ?g1 = "g[r0 := (g ! r0)[c0 := n]]"
    have r0: "r0 < nat rows" "c0 < nat cols"
      using Some p cell_of_less by blast+
    have sc: "set_cell g s n = Inr ?g1"
      using set_cell_char [OF Cons.prems, of s n] Some p by simp
    have l1: "length ?g1 = nat rows" using Cons.prems(1) by simp
    have l2: "\<forall>i<nat rows. length (?g1 ! i) = nat cols"
      using Cons.prems r0 by (auto simp: nth_list_update)
    have cell: "?g1 ! r ! c = place rows cols (r, c) (s, n) (g ! r ! c)"
      if "r < nat rows" "c < nat cols" for r c
      using that Cons.prems Some p r0
      by (cases "r = r0") (auto simp: place_def nth_list_update)
    have m: "map (\<lambda>r. map (\<lambda>c. fold (place rows cols (r, c)) asg (?g1 ! r ! c))
                                  [0..<nat cols]) [0..<nat rows] =
             map (\<lambda>r. map (\<lambda>c. fold (place rows cols (r, c)) (a # asg) (g ! r ! c))
                                  [0..<nat cols]) [0..<nat rows]"
      by (intro map_cong refl) (simp add: cell a)
    show ?thesis
      using Cons.IH [OF l1 l2] Some
      by (simp only: a fill_grid.simps sc sum.case m [unfolded a]) simp
  qed
qed

lemma enumerate_map_from_one:
  "List.enumerate (Suc 0) (map f [0..<n]) = map (\<lambda>i. (Suc i, f i)) [0..<n]"
  by (rule nth_equalityI) (simp_all add: nth_enumerate_eq)

lemma map_upt_from_one:
  "map h [Suc 0..<Suc n] = map (\<lambda>i. h (Suc i)) [0..<n]"
  unfolding map_Suc_upt [symmetric] by (simp add: comp_def)

lemma render_cell_label:
  "render_cell r c name =
     label \<lparr>row = int r, col = int c\<rparr> @ u '': '' @ (if name = [] then u ''-'' else name)"
  by (simp add: render_cell_def label_def display_def)

lemma render_grid_char:
  "render_grid (map (\<lambda>r. map (\<lambda>c. cell (Suc r) (Suc c)) [0..<nat cols]) [0..<nat rows]) =
     grid_text rows cols cell"
  unfolding render_grid_def render_row_def grid_text_def One_nat_def
    enumerate_map_from_one map_upt_from_one
  by (simp add: render_cell_label comp_def enumerate_map_from_one)

lemma format_grid_char:
  "format_grid asg rows cols =
     (if \<forall>p\<in>set asg. cell_of rows cols (fst p) \<noteq> None
      then Inr (grid_text rows cols (stored rows cols asg))
      else Inl IndexError)"
proof -
  let ?g = "replicate (nat rows) (replicate (nat cols) ([] :: pystr))"
  have f: "fill_grid ?g asg =
           (if \<forall>p\<in>set asg. cell_of rows cols (fst p) \<noteq> None
            then Inr (map (\<lambda>r. map (\<lambda>c. fold (place rows cols (r, c)) asg (?g ! r ! c))
                                  [0..<nat cols]) [0..<nat rows])
            else Inl IndexError)"
    by (rule fill_grid_char) simp_all
  have e: "map (\<lambda>r. map (\<lambda>c. fold (place rows cols (r, c)) asg (?g ! r ! c))
                                  [0..<nat cols]) [0..<nat rows] =
        map (\<lambda>r. map (\<lambda>c. stored rows cols asg (Suc r) (Suc c))
                                  [0..<nat cols]) [0..<nat rows]"
    by (intro map_cong refl) (simp add: stored_def)
  show ?thesis
    unfolding format_grid_def f e
    by (simp add: render_grid_char)
qed


lemma stored_snoc:
  "stored rows cols (asg @ [(s, n)]) r c =
     (if cell_of rows cols s = Some (r - 1, c - 1) then n else stored rows cols asg r c)"
  by (simp add: stored_def place_def)

lemma stored_Nil: "stored rows cols [] r c = []"
  by (simp add: stored_def)

lemma fold_place_empty:
  "\<forall>a\<in>set xs. cell_of rows cols (fst a) = Some p \<longrightarrow> snd a = [] \<Longrightarrow>
     fold (place rows cols p) xs [] = []"
  by (induction xs rule: rev_induct) (simp_all add: place_def)

lemma stored_drop_empty:
  assumes "cell_of rows cols s = Some p"
    and "\<forall>a\<in>set xs. cell_of rows cols (fst a) = Some p \<longrightarrow> snd a = []"
  shows "stored rows cols (xs @ (s, []) # ys) = stored rows cols (xs @ ys)"
proof (intro ext)
  fix r c
  show "stored rows cols (xs @ (s, []) # ys) r c = stored rows cols (xs @ ys) r c"
  proof (cases "(r - 1, c - 1) = p")
    case True
    have "fold (place rows cols p) xs [] = []"
      using assms(2) by (rule fold_place_empty)
    then show ?thesis using True by (auto simp: stored_def place_def)
  next
    case False
    then show ?thesis using assms(1) by (auto simp: stored_def place_def)
  qed
qed

lemma fold_place_other:
  "\<forall>a\<in>set ys. cell_of rows cols (fst a) \<noteq> Some p \<Longrightarrow> fold (place rows cols p) ys v = v"
  by (induction ys arbitrary: v) (simp_all add: place_def)

lemma cell_of_in_grid_inj:
  assumes "in_grid rows cols s" and "in_grid rows cols t" and "cell_of rows cols s = cell_of rows cols t"
  shows "s = t"
proof -
  have "nat (row s - 1) = nat (row t - 1)" "nat (col s - 1) = nat (col t - 1)"
    using assms by (simp_all add: cell_of_in_grid)
  moreover have "1 \<le> row s" "1 \<le> row t" "1 \<le> col s" "1 \<le> col t"
    using assms(1,2) by (simp_all add: in_grid_def)
  ultimately have "row s = row t" "col s = col t" by linarith+
  then show ?thesis by simp
qed

lemma format_grid_drop_empty_general:
  assumes "cell_of rows cols s = Some p"
    and "\<forall>a\<in>set xs. cell_of rows cols (fst a) = Some p \<longrightarrow> snd a = []"
  shows "format_grid (xs @ (s, []) # ys) rows cols = format_grid (xs @ ys) rows cols \<and>
         render_cell r c [] = label \<lparr>row = int r, col = int c\<rparr> @ u '': -''"
proof -
  have "stored rows cols (xs @ (s, []) # ys) = stored rows cols (xs @ ys)"
    using assms by (rule stored_drop_empty)
  moreover have "(\<forall>a\<in>set (xs @ (s, []) # ys). cell_of rows cols (fst a) \<noteq> None) \<longleftrightarrow>
                 (\<forall>a\<in>set (xs @ ys). cell_of rows cols (fst a) \<noteq> None)"
    using assms(1) by auto
  ultimately have "format_grid (xs @ (s, []) # ys) rows cols = format_grid (xs @ ys) rows cols"
    by (simp only: format_grid_char)
  moreover have "render_cell r c [] = label \<lparr>row = int r, col = int c\<rparr> @ u '': -''"
    by (simp add: render_cell_label u_def)
  ultimately show ?thesis by blast
qed

text \<open>
  C8, as the code has it. \<open>format_grid\<close> starts from a matrix of \<open>rows\<close> by
  \<open>cols\<close> empty strings and places the student string of each pair, in order, at
  \<open>matrix[row - 1][col - 1]\<close> (for a seat of the grid that is the cell of that row and
  column; a later pair for the same cell replaces an earlier one; a seat that addresses
  no cell raises \<open>IndexError\<close>). It then renders the cells of each row from left to
  right as label, colon, space and display, joined by \<open>" | "\<close>, the rows joined by a
  newline. The display is the stored string when that string is not empty, and \<open>-\<close>
  when it is empty: so an unassigned cell, and equally a cell that was assigned the
  empty string, renders as \<open>R{r}C{c}: -\<close>.
\<close>

theorem format_grid_renders:
  "format_grid asg rows cols =
     (if \<forall>p\<in>set asg. cell_of rows cols (fst p) \<noteq> None
      then Inr (grid_text rows cols (stored rows cols asg))
      else Inl IndexError) \<and>
   (in_grid rows cols s \<longrightarrow> cell_of rows cols s = Some (nat (row s - 1), nat (col s - 1))) \<and>
   stored rows cols [] r c = [] \<and>
   stored rows cols (asg @ [(s, n)]) r c =
     (if cell_of rows cols s = Some (r - 1, c - 1) then n else stored rows cols asg r c)"
  using format_grid_char [of asg rows cols] cell_of_in_grid [of rows cols s]
    stored_Nil [of rows cols r c] stored_snoc [of rows cols asg s n r c]
  by blast

theorem format_grid_renders_witness:
  "list_all (\<lambda>p. cell_of 2 2 (fst p) \<noteq> None)
     [(\<lparr>row = 2, col = 1\<rparr>, u ''Al''), (\<lparr>row = 1, col = 2\<rparr>, [])] \<and>
   in_grid 2 2 \<lparr>row = 2, col = 1\<rparr> \<and>
   cell_of 2 2 \<lparr>row = 2, col = 1\<rparr> = Some (1, 0) \<and>
   format_grid [(\<lparr>row = 2, col = 1\<rparr>, u ''Al''), (\<lparr>row = 1, col = 2\<rparr>, [])] 2 2 =
     Inr (u ''R1C1: - | R1C2: -'' @ [0x0A] @ u ''R2C1: Al | R2C2: -'')"
proof -
  have h: "\<forall>p\<in>set [(\<lparr>row = 2, col = 1\<rparr>, u ''Al''), (\<lparr>row = 1, col = 2\<rparr>, [])].
      cell_of 2 2 (fst p) \<noteq> None"
    by (simp add: cell_of_def py_index_def)
  have g: "in_grid 2 2 \<lparr>row = 2, col = 1\<rparr>"
    by (simp add: in_grid_def)
  have t: "grid_text 2 2
             (stored 2 2 [(\<lparr>row = 2, col = 1\<rparr>, u ''Al''), (\<lparr>row = 1, col = 2\<rparr>, [])]) =
           u ''R1C1: - | R1C2: -'' @ [0x0A] @ u ''R2C1: Al | R2C2: -''"
    by code_simp
  have n: "nat (row \<lparr>row = 2, col = 1\<rparr> - 1) = 1 \<and> nat (col \<lparr>row = 2, col = 1\<rparr> - 1) = 0"
    by simp
  show ?thesis
    using h g t n
      format_grid_renders [of "[(\<lparr>row = 2, col = 1\<rparr>, u ''Al''), (\<lparr>row = 1, col = 2\<rparr>, [])]" 2 2
             "\<lparr>row = 2, col = 1\<rparr>"]
    by simp
qed

text \<open>
  C8 as worded says that the display is the stored student string. For a pair whose
  student string is empty that would be \<open>R1C1: \<close> followed by nothing; the code
  renders \<open>R1C1: -\<close>.
\<close>

theorem format_grid_empty_string_counterexample:
  "format_grid [(\<lparr>row = 1, col = 1\<rparr>, [])] 1 1 = Inr (u ''R1C1: -'') \<and>
   format_grid [(\<lparr>row = 1, col = 1\<rparr>, [])] 1 1 \<noteq>
     Inr (label \<lparr>row = 1, col = 1\<rparr> @ u '': '' @ [])"
  by code_simp

text \<open>
  C9. An assignment is a list of pairs whose seats are unique and lie in the grid of
  \<open>rows\<close> by \<open>cols\<close>. In such an assignment a cell that was assigned the empty
  string holds the empty string, as an unassigned cell does, and renders as the
  placeholder \<open>R{r}C{c}: -\<close>; and the grid rendered from an assignment that pairs
  some seat with the empty string is the grid rendered with that pair removed. Both
  calls return the rendered grid.
\<close>

theorem format_grid_empty_student_as_unassigned:
  assumes "distinct (map fst (xs @ (s, []) # ys))"
    and "\<forall>a\<in>set (xs @ (s, []) # ys). in_grid rows cols (fst a)"
  shows "format_grid (xs @ (s, []) # ys) rows cols = format_grid (xs @ ys) rows cols \<and>
         format_grid (xs @ (s, []) # ys) rows cols =
           Inr (grid_text rows cols (stored rows cols (xs @ (s, []) # ys))) \<and>
         stored rows cols (xs @ (s, []) # ys) (nat (row s)) (nat (col s)) = [] \<and>
         stored rows cols (xs @ ys) (nat (row s)) (nat (col s)) = [] \<and>
         render_cell (nat (row s)) (nat (col s)) [] = label s @ u '': -''"
proof -
  let ?p = "(nat (row s - 1), nat (col s - 1))"
  have gs: "in_grid rows cols s" using assms(2) by simp
  then have cs: "cell_of rows cols s = Some ?p" by (rule cell_of_in_grid)
  have other: "cell_of rows cols (fst a) \<noteq> Some ?p" if a: "a \<in> set xs \<union> set ys" for a
  proof
    assume e: "cell_of rows cols (fst a) = Some ?p"
    have ga: "in_grid rows cols (fst a)" using assms(2) a by auto
    have "cell_of rows cols (fst a) = cell_of rows cols s" unfolding e cs ..
    with ga gs have "fst a = s" by (rule cell_of_in_grid_inj)
    moreover have "s \<notin> fst ` (set xs \<union> set ys)" using assms(1) by auto
    ultimately show False using a by blast
  qed
  have h2: "\<forall>a\<in>set xs. cell_of rows cols (fst a) = Some ?p \<longrightarrow> snd a = []"
    using other by blast
  have eq: "format_grid (xs @ (s, []) # ys) rows cols = format_grid (xs @ ys) rows cols"
    using format_grid_drop_empty_general [OF cs h2] by blast
  have all: "\<forall>a\<in>set (xs @ (s, []) # ys). cell_of rows cols (fst a) \<noteq> None"
    using assms(2) by (auto simp: cell_of_in_grid)
  have val: "format_grid (xs @ (s, []) # ys) rows cols =
           Inr (grid_text rows cols (stored rows cols (xs @ (s, []) # ys)))"
    unfolding format_grid_char using all by (rule if_P)
  have idx: "(nat (row s) - 1, nat (col s) - 1) = ?p"
    using gs by (simp add: in_grid_def nat_diff_distrib)
  have fx: "fold (place rows cols ?p) xs [] = []"
    using h2 by (rule fold_place_empty)
  have fy: "fold (place rows cols ?p) ys [] = []"
    using other by (intro fold_place_other) blast
  have st1: "stored rows cols (xs @ (s, []) # ys) (nat (row s)) (nat (col s)) = []"
    unfolding stored_def idx by (simp add: fx fy place_def)
  have st2: "stored rows cols (xs @ ys) (nat (row s)) (nat (col s)) = []"
    unfolding stored_def idx by (simp add: fx fy)
  have rc: "render_cell (nat (row s)) (nat (col s)) [] = label s @ u '': -''"
    using gs by (simp add: render_cell_label u_def in_grid_def label_def)
  from eq val st1 st2 rc show ?thesis by blast
qed

theorem format_grid_empty_student_as_unassigned_witness:
  "distinct (map fst ([(\<lparr>row = 1, col = 2\<rparr>, u ''Bo'')] @ (\<lparr>row = 1, col = 1\<rparr>, []) #
                  [(\<lparr>row = 2, col = 2\<rparr>, u ''Cy'')])) \<and>
   list_all (\<lambda>a. in_grid 2 2 (fst a))
     ([(\<lparr>row = 1, col = 2\<rparr>, u ''Bo'')] @ (\<lparr>row = 1, col = 1\<rparr>, []) #
                  [(\<lparr>row = 2, col = 2\<rparr>, u ''Cy'')]) \<and>
   format_grid ([(\<lparr>row = 1, col = 2\<rparr>, u ''Bo'')] @ (\<lparr>row = 1, col = 1\<rparr>, []) #
                  [(\<lparr>row = 2, col = 2\<rparr>, u ''Cy'')]) 2 2 =
   format_grid ([(\<lparr>row = 1, col = 2\<rparr>, u ''Bo'')] @ [(\<lparr>row = 2, col = 2\<rparr>, u ''Cy'')]) 2 2 \<and>
   format_grid ([(\<lparr>row = 1, col = 2\<rparr>, u ''Bo'')] @ [(\<lparr>row = 2, col = 2\<rparr>, u ''Cy'')]) 2 2 =
     Inr (u ''R1C1: - | R1C2: Bo'' @ [0x0A] @ u ''R2C1: - | R2C2: Cy'')"
proof -
  have h1: "distinct (map fst ([(\<lparr>row = 1, col = 2\<rparr>, u ''Bo'')] @ (\<lparr>row = 1, col = 1\<rparr>, []) #
                  [(\<lparr>row = 2, col = 2\<rparr>, u ''Cy'')]))"
    by simp
  have h2: "\<forall>a\<in>set ([(\<lparr>row = 1, col = 2\<rparr>, u ''Bo'')] @ (\<lparr>row = 1, col = 1\<rparr>, []) #
                  [(\<lparr>row = 2, col = 2\<rparr>, u ''Cy'')]). in_grid 2 2 (fst a)"
    by (simp add: in_grid_def)
  have v: "format_grid ([(\<lparr>row = 1, col = 2\<rparr>, u ''Bo'')] @ [(\<lparr>row = 2, col = 2\<rparr>, u ''Cy'')]) 2 2 =
     Inr (u ''R1C1: - | R1C2: Bo'' @ [0x0A] @ u ''R2C1: - | R2C2: Cy'')"
    by code_simp
  show ?thesis
    using h1 h2 v format_grid_empty_student_as_unassigned [OF h1 h2] unfolding list_all_iff by blast
qed

text \<open>
  Lists of pairs that use a seat twice, or a seat outside the grid, are not assignments
  and are outside that statement: there a later pair with the empty string erases the
  name an earlier pair put in the cell, and a seat outside the grid raises
  \<open>IndexError\<close>.
\<close>

lemma format_grid_outside_assignments:
  "format_grid [(\<lparr>row = 1, col = 1\<rparr>, u ''A''), (\<lparr>row = 1, col = 1\<rparr>, [])] 1 1 =
     Inr (u ''R1C1: -'') \<and>
   format_grid [(\<lparr>row = 1, col = 1\<rparr>, u ''A'')] 1 1 = Inr (u ''R1C1: A'') \<and>
   format_grid [(\<lparr>row = 1, col = 1\<rparr>, u ''A''), (\<lparr>row = 1, col = 1\<rparr>, [])] 1 1 \<noteq>
     format_grid [(\<lparr>row = 1, col = 1\<rparr>, u ''A'')] 1 1 \<and>
   format_grid [(\<lparr>row = 2, col = 1\<rparr>, [])] 1 1 = Inl IndexError \<and>
   format_grid [] 1 1 = Inr (u ''R1C1: -'')"
  by code_simp

text \<open>
  C10. Every seat that \<open>assign_seats\<close> returns has its row in \<open>1..rows\<close> and its
  column in \<open>1..cols\<close>, so it addresses the cell \<open>(row - 1, col - 1)\<close> of the matrix
  without wrapping around; and \<open>format_grid\<close> applied to that result with the same
  \<open>rows\<close> and \<open>cols\<close> does not raise \<open>IndexError\<close> but returns the rendered grid.
\<close>

theorem assign_seats_fits_grid:
  assumes "assign_seats R os students rows cols blocked seed = Inr res"
  shows "(\<forall>(s, n)\<in>set res.
            1 \<le> row s \<and> row s \<le> rows \<and> 1 \<le> col s \<and> col s \<le> cols \<and>
            cell_of rows cols s = Some (nat (row s - 1), nat (col s - 1))) \<and>
         format_grid res rows cols \<noteq> Inl IndexError \<and>
         format_grid res rows cols = Inr (grid_text rows cols (stored rows cols res))"
proof -
  from assms have res: "res = zip (available_seats rows cols blocked) (shuffled R os seed students)"
    by (simp add: assign_seats_def split: if_splits)
  have g: "in_grid rows cols s" if "(s, n) \<in> set res" for s n
  proof -
    from that have "s \<in> set (available_seats rows cols blocked)"
      unfolding res by (rule set_zip_leftD)
    then show ?thesis by (simp add: set_available_seats)
  qed
  have a: "\<forall>(s, n)\<in>set res.
            1 \<le> row s \<and> row s \<le> rows \<and> 1 \<le> col s \<and> col s \<le> cols \<and>
            cell_of rows cols s = Some (nat (row s - 1), nat (col s - 1))"
  proof (clarify)
    fix s n assume "(s, n) \<in> set res"
    then have i: "in_grid rows cols s" by (rule g)
    then show "1 \<le> row s \<and> row s \<le> rows \<and> 1 \<le> col s \<and> col s \<le> cols \<and>
            cell_of rows cols s = Some (nat (row s - 1), nat (col s - 1))"
      using cell_of_in_grid [OF i] by (simp add: in_grid_def)
  qed
  then have "\<forall>p\<in>set res. cell_of rows cols (fst p) \<noteq> None" by auto
  then have f: "format_grid res rows cols = Inr (grid_text rows cols (stored rows cols res))"
    by (simp add: format_grid_char)
  from a f show ?thesis by simp
qed

theorem assign_seats_fits_grid_witness:
  "assign_seats lcg 0 [u ''A'', u ''B'', u ''C''] 2 2 (Some [(1, 1)]) (Some 42) =
     Inr [(\<lparr>row = 1, col = 2\<rparr>, u ''C''), (\<lparr>row = 2, col = 1\<rparr>, u ''B''),
          (\<lparr>row = 2, col = 2\<rparr>, u ''A'')] \<and>
   format_grid [(\<lparr>row = 1, col = 2\<rparr>, u ''C''), (\<lparr>row = 2, col = 1\<rparr>, u ''B''),
          (\<lparr>row = 2, col = 2\<rparr>, u ''A'')] 2 2 \<noteq> Inl IndexError"
proof -
  have e: "assign_seats lcg 0 [u ''A'', u ''B'', u ''C''] 2 2 (Some [(1, 1)]) (Some 42) =
     Inr [(\<lparr>row = 1, col = 2\<rparr>, u ''C''), (\<lparr>row = 2, col = 1\<rparr>, u ''B''),
          (\<lparr>row = 2, col = 2\<rparr>, u ''A'')]"
    by code_simp
  show ?thesis
    using e assign_seats_fits_grid [OF e] by blast
qed

end
